theory Spec2Isabelle
  imports Main "HOL-Library.AList"
begin

section \<open>Data model of \<^verbatim>\<open>blockchain.py\<close>\<close>

text \<open>
  The ledger of \<^verbatim>\<open>blockchain.py\<close> is a linked list of \<^verbatim>\<open>_Transaction\<close> objects that
  the \<^verbatim>\<open>Ledger\<close> object points into with \<^verbatim>\<open>first\<close> and \<^verbatim>\<open>last\<close>. Objects are
  shared by reference, so the model keeps an explicit object store: every \<^verbatim>\<open>_Transaction\<close>
  that a constructor call has created sits in the list \<open>heap\<close>, and a reference to it is
  its index there. \<^verbatim>\<open>None\<close> is \<open>None\<close>.

  Names follow the source. Three of them cannot: \<^verbatim>\<open>next\<close> is a keyword of the proof
  language (the field is \<open>next_tx\<close>), \<^verbatim>\<open>last\<close> is the list function of HOL (the field
  is \<open>last_tx\<close>), and an identifier cannot start with an underscore (\<^verbatim>\<open>_balance\<close> is
  \<open>balance\<close>). Method parameters that carry the name of a field (\<^verbatim>\<open>sender\<close>,
  \<^verbatim>\<open>recipient\<close>, \<^verbatim>\<open>amount\<close>) are primed.
\<close>

text \<open>
  The decorator \<^verbatim>\<open>check_contracts\<close> comes from the package \<^verbatim>\<open>python_ta\<close>, which is not part
  of the repository. The model is of the method bodies as they are written; the documented
  preconditions (non-empty names, a positive amount) appear as hypotheses where a
  statement needs them.
\<close>

type_synonym addr = nat

record transaction =
  sender :: string
  recipient :: string
  amount :: int
  next_tx :: "addr option"
  prev_digest :: int
  nonce :: int

text \<open>
  A Python \<^verbatim>\<open>dict[str, int]\<close> keeps its keys in insertion order and \<^verbatim>\<open>verify_balance\<close>
  iterates over it, so it is an association list. \<^verbatim>\<open>d[k] = v\<close> replaces the value of a
  present key in place and appends an absent one, which is \<^const>\<open>AList.update\<close>;
  reading \<^verbatim>\<open>d[k]\<close> of an absent key raises \<^verbatim>\<open>KeyError\<close>. The file itself raises
  \<^verbatim>\<open>ValueError\<close>; \<open>OtherException\<close> stands for whatever else a function that is not in
  the file may raise.
\<close>

type_synonym dict = "(string \<times> int) list"

datatype exn = KeyError | ValueError | OtherException

definition dict_get :: "dict \<Rightarrow> string \<Rightarrow> exn + int" where
  "dict_get d k = (case map_of d k of None \<Rightarrow> Inl KeyError | Some v \<Rightarrow> Inr v)"

definition dict_set :: "dict \<Rightarrow> string \<Rightarrow> int \<Rightarrow> dict" where
  "dict_set d k v = AList.update k v d"

definition dict_in :: "string \<Rightarrow> dict \<Rightarrow> bool" where
  "dict_in k d = (case map_of d k of None \<Rightarrow> False | Some v \<Rightarrow> True)"

record ledger =
  heap :: "transaction list"
  first :: "addr option"
  last_tx :: "addr option"
  balance :: dict

text \<open>\<^verbatim>\<open>Ledger.__init__\<close>: no transactions, no balances (and no object created yet).\<close>

definition Ledger_init :: ledger where
  "Ledger_init = \<lparr>heap = [], first = None, last_tx = None, balance = []\<rparr>"

text \<open>
  A call of the constructor \<^verbatim>\<open>_Transaction(...)\<close> creates a fresh object and returns the
  reference to it. Only the store changes.
\<close>

definition new_Transaction :: "ledger \<Rightarrow> transaction \<Rightarrow> addr \<times> ledger" where
  "new_Transaction self t = (length (heap self), self\<lparr>heap := heap self @ [t]\<rparr>)"

section \<open>Part 2(a): the mutating methods\<close>

text \<open>
  A method returns what the caller sees: \<open>Inr ()\<close> when it returns normally, \<open>Inl e\<close>
  when it raises \<open>e\<close>, together with the state it leaves behind.

  \<^verbatim>\<open>record_transfer\<close> (lines 111 to 129) builds the object first, then reads
  \<^verbatim>\<open>self._balance[sender]\<close> for the comparison with \<^verbatim>\<open>amount\<close>, and only in the
  \<^verbatim>\<open>elif\<close> asks whether \<^verbatim>\<open>sender\<close> is a key at all. In the last branch it sets
  \<^verbatim>\<open>self.last\<close> and updates the two balances; it writes neither \<^verbatim>\<open>self.first\<close> nor any
  \<^verbatim>\<open>next\<close> field. Lines 113 to 129 are repeated word for word as lines 241 to 257 of
  \<^verbatim>\<open>record_transfer_digest\<close>; \<open>transfer_body\<close> is that block, with the reference to the
  new object as its first argument.
\<close>

definition transfer_body :: "addr \<Rightarrow> ledger \<Rightarrow> string \<Rightarrow> string \<Rightarrow> int \<Rightarrow> (exn + unit) \<times> ledger" where
  "transfer_body new_tansfer s1 sender' recipient' amount' =
    (case dict_get (balance s1) sender' of
       Inl e \<Rightarrow> (Inl e, s1)
     | Inr b \<Rightarrow>
         if b < amount' then (Inl ValueError, s1)
         else if \<not> dict_in sender' (balance s1) then (Inl ValueError, s1)
         else
           let s2 = s1\<lparr>last_tx := Some new_tansfer\<rparr>
           in case dict_get (balance s2) sender' of
                Inl e \<Rightarrow> (Inl e, s2)
              | Inr b2 \<Rightarrow>
                  let deducted_balance = b2 - amount';
                      s3 = s2\<lparr>balance := dict_set (balance s2) sender' deducted_balance\<rparr>
                  in if \<not> dict_in recipient' (balance s3)
                     then (Inr (), s3\<lparr>balance := dict_set (balance s3) recipient' amount'\<rparr>)
                     else case dict_get (balance s3) recipient' of
                            Inl e \<Rightarrow> (Inl e, s3)
                          | Inr r \<Rightarrow>
                              let added_balance = r + amount'
                              in (Inr (), s3\<lparr>balance :=
                                     dict_set (balance s3) recipient' added_balance\<rparr>))"

definition record_transfer :: "ledger \<Rightarrow> string \<Rightarrow> string \<Rightarrow> int \<Rightarrow> (exn + unit) \<times> ledger" where
  "record_transfer self sender' recipient' amount' =
    (let (new_tansfer, s1) = new_Transaction self
            \<lparr>sender = sender', recipient = recipient', amount = amount',
             next_tx = None, prev_digest = 0, nonce = 0\<rparr>
     in transfer_body new_tansfer s1 sender' recipient' amount')"

text \<open>
  \<^verbatim>\<open>record_mining\<close> (lines 149 to 157): on a ledger without a first transaction it sets
  \<^verbatim>\<open>self.first\<close>, otherwise \<^verbatim>\<open>self.last\<close>; in both branches it assigns
  \<^verbatim>\<open>self._balance[miner] = amount\<close>.
\<close>

definition record_mining :: "ledger \<Rightarrow> string \<Rightarrow> int \<Rightarrow> (exn + unit) \<times> ledger" where
  "record_mining self miner amount' =
    (let (new_miner, s1) = new_Transaction self
            \<lparr>sender = '''', recipient = miner, amount = amount',
             next_tx = None, prev_digest = 0, nonce = 0\<rparr>
     in if first s1 = None
        then (Inr (), s1\<lparr>first := Some new_miner,
                          balance := dict_set (balance s1) miner amount'\<rparr>)
        else (Inr (), s1\<lparr>last_tx := Some new_miner,
                          balance := dict_set (balance s1) miner amount'\<rparr>))"

text \<open>\<^verbatim>\<open>get_balance\<close> (lines 167 to 171).\<close>

definition get_balance :: "ledger \<Rightarrow> string \<Rightarrow> (exn + int) \<times> ledger" where
  "get_balance self person =
    (if \<not> dict_in person (balance self) then (Inl ValueError, self)
     else case dict_get (balance self) person of
            Inl e \<Rightarrow> (Inl e, self)
          | Inr current_balance \<Rightarrow> (Inr current_balance, self))"

section \<open>\<^verbatim>\<open>verify_balance\<close>\<close>

text \<open>
  While \<^verbatim>\<open>verify_balance\<close> runs, the variables in scope are \<^verbatim>\<open>self\<close> (the ledger with
  its object store) and the locals \<^verbatim>\<open>balance_so_far\<close> and \<^verbatim>\<open>curr_trans\<close>
  (\<^verbatim>\<open>recipient\<close>, \<^verbatim>\<open>sender\<close> and \<^verbatim>\<open>name\<close> are read-only abbreviations inside one
  iteration). A \<open>frame\<close> holds them; every statement of the method is a function from
  frame to frame, so that an assignment to \<^verbatim>\<open>self\<close>, to \<^verbatim>\<open>self._balance\<close> or to a
  transaction object would show as a change of \<open>self_obj\<close>. \<^verbatim>\<open>balance_so_far\<close> is the
  dictionary that line 196 creates; it is an object of its own, not \<^verbatim>\<open>self._balance\<close>.
\<close>

record frame =
  self_obj :: ledger
  balance_so_far :: dict
  curr_trans :: "addr option"

text \<open>Lines 198 and 199: \<^verbatim>\<open>balance_so_far[name] = 0\<close> for one key of \<^verbatim>\<open>self._balance\<close>.\<close>

definition zero_entry :: "string \<Rightarrow> frame \<Rightarrow> frame" where
  "zero_entry name fr = fr\<lparr>balance_so_far := dict_set (balance_so_far fr) name 0\<rparr>"

text \<open>
  The last loop of \<^verbatim>\<open>verify_balance\<close> (lines 212 to 214) runs over the keys of
  \<^verbatim>\<open>balance_so_far\<close> and returns \<^verbatim>\<open>False\<close> at the first key whose two values differ;
  after it, line 216 returns \<^verbatim>\<open>True\<close>.
\<close>

fun compare_loop :: "string list \<Rightarrow> frame \<Rightarrow> (exn + bool) \<times> frame" where
  "compare_loop [] fr = (Inr True, fr)"
| "compare_loop (name # names) fr =
    (case dict_get (balance_so_far fr) name of
       Inl e \<Rightarrow> (Inl e, fr)
     | Inr x \<Rightarrow>
        (case dict_get (balance (self_obj fr)) name of
           Inl e \<Rightarrow> (Inl e, fr)
         | Inr y \<Rightarrow> if x \<noteq> y then (Inr False, fr) else compare_loop names fr))"

text \<open>
  The \<^verbatim>\<open>while\<close> loop (lines 201 to 211) follows \<^verbatim>\<open>next\<close> from \<^verbatim>\<open>self.first\<close> until it
  finds \<^verbatim>\<open>None\<close>. On a store whose \<^verbatim>\<open>next\<close> references form a cycle it never ends, so
  the loop is a partial function: \<open>None\<close> is "does not return". The loop is left in three
  ways: by the \<^verbatim>\<open>return False\<close> of line 208 (\<open>Some (Inr False)\<close>), by an exception
  (\<open>Some (Inl e)\<close>), or because \<^verbatim>\<open>curr_trans\<close> is \<^verbatim>\<open>None\<close> (\<open>None\<close>: the method goes on
  with line 212). The two reads of \<^verbatim>\<open>self._balance[sender]\<close> in line 207 are one
  \<open>dict_get\<close>: the second one reads the same key of the same dictionary.
\<close>

partial_function (option) verify_loop :: "frame \<Rightarrow> ((exn + bool) option \<times> frame) option" where
  "verify_loop fr =
    (case curr_trans fr of
       None \<Rightarrow> Some (None, fr)
     | Some a \<Rightarrow>
        (let recipient' = recipient (heap (self_obj fr) ! a);
             sender' = sender (heap (self_obj fr) ! a)
         in case dict_get (balance_so_far fr) recipient' of
              Inl e \<Rightarrow> Some (Some (Inl e), fr)
            | Inr r \<Rightarrow>
               (let fr1 = fr\<lparr>balance_so_far := dict_set (balance_so_far fr) recipient'
                                 (r + amount (heap (self_obj fr) ! a))\<rparr>
                in if sender' \<noteq> '''' then
                     (case dict_get (balance (self_obj fr1)) sender' of
                        Inl e \<Rightarrow> Some (Some (Inl e), fr1)
                      | Inr b \<Rightarrow>
                          if b < amount (heap (self_obj fr1) ! a) \<or> b = 0
                          then Some (Some (Inr False), fr1)
                          else (case dict_get (balance_so_far fr1) sender' of
                                  Inl e \<Rightarrow> Some (Some (Inl e), fr1)
                                | Inr x \<Rightarrow>
                                    verify_loop (fr1\<lparr>balance_so_far :=
                                        dict_set (balance_so_far fr1) sender'
                                          (x - amount (heap (self_obj fr1) ! a)),
                                      curr_trans := next_tx (heap (self_obj fr1) ! a)\<rparr>)))
                   else verify_loop (fr1\<lparr>curr_trans := next_tx (heap (self_obj fr1) ! a)\<rparr>))))"

declare verify_loop.simps [code]

text \<open>
  \<^verbatim>\<open>verify_balance\<close> (lines 196 to 216): the empty \<^verbatim>\<open>balance_so_far\<close>, \<^verbatim>\<open>curr_trans\<close> at
  \<^verbatim>\<open>self.first\<close>, one zero entry per key of \<^verbatim>\<open>_balance\<close> in its order, the walk, and after
  a walk that reached the end the comparison. The caller gets the result and the ledger
  as the last statement left it.
\<close>

definition verify_balance :: "ledger \<Rightarrow> ((exn + bool) \<times> ledger) option" where
  "verify_balance self =
     (let fr0 = \<lparr>self_obj = self, balance_so_far = [], curr_trans = first self\<rparr>;
          fr1 = fold zero_entry (map fst (balance (self_obj fr0))) fr0
      in case verify_loop fr1 of
           None \<Rightarrow> None
         | Some (Some res, fr2) \<Rightarrow> Some (res, self_obj fr2)
         | Some (None, fr2) \<Rightarrow>
             (case compare_loop (map fst (balance_so_far fr2)) fr2 of
                (res, fr3) \<Rightarrow> Some (res, self_obj fr3)))"

section \<open>Part 2(b): the methods that store a digest\<close>

text \<open>
  \<^verbatim>\<open>digest_from_hash\<close> is called in lines 239 and 273 but is not defined in the file
  (the docstrings say it is "provided near the bottom of this file"). It is a parameter
  of the two methods here: any function from the object it is given (\<^verbatim>\<open>self.last\<close>, which
  may be \<^verbatim>\<open>None\<close>) to an integer, or to an exception.

  Both methods call it on \<^verbatim>\<open>self.last\<close> while they build the new object, before anything
  else. \<^verbatim>\<open>record_mining_digest\<close> (lines 273 to 283) overwrites the stored digest with 0 in
  the branch that sets \<^verbatim>\<open>self.first\<close>.
\<close>

definition record_transfer_digest ::
  "(transaction option \<Rightarrow> exn + int) \<Rightarrow> ledger \<Rightarrow> string \<Rightarrow> string \<Rightarrow> int
     \<Rightarrow> (exn + unit) \<times> ledger" where
  "record_transfer_digest digest_from_hash self sender' recipient' amount' =
    (case digest_from_hash (map_option (\<lambda>a. heap self ! a) (last_tx self)) of
       Inl e \<Rightarrow> (Inl e, self)
     | Inr dg \<Rightarrow>
        (let (new_tansfer, s1) = new_Transaction self
                \<lparr>sender = sender', recipient = recipient', amount = amount',
                 next_tx = None, prev_digest = dg, nonce = 0\<rparr>
         in transfer_body new_tansfer s1 sender' recipient' amount'))"

definition record_mining_digest ::
  "(transaction option \<Rightarrow> exn + int) \<Rightarrow> ledger \<Rightarrow> string \<Rightarrow> int \<Rightarrow> (exn + unit) \<times> ledger" where
  "record_mining_digest digest_from_hash self miner amount' =
    (case digest_from_hash (map_option (\<lambda>a. heap self ! a) (last_tx self)) of
       Inl e \<Rightarrow> (Inl e, self)
     | Inr dg \<Rightarrow>
        (let (new_miner, s1) = new_Transaction self
                \<lparr>sender = '''', recipient = miner, amount = amount',
                 next_tx = None, prev_digest = dg, nonce = 0\<rparr>
         in if first s1 = None
            then
              let s2 = s1\<lparr>first := Some new_miner,
                          balance := dict_set (balance s1) miner amount'\<rparr>
              in (Inr (), s2\<lparr>heap := (heap s2)[new_miner :=
                                 (heap s2 ! new_miner)\<lparr>prev_digest := 0\<rparr>]\<rparr>)
            else (Inr (), s1\<lparr>last_tx := Some new_miner,
                              balance := dict_set (balance s1) miner amount'\<rparr>)))"

text \<open>
  The record that \<^verbatim>\<open>record_mining_digest('David', 5)\<close> leaves on a new ledger.
\<close>

definition david_record :: transaction where
  "david_record = \<lparr>sender = '''', recipient = ''David'', amount = 5,
                    next_tx = None, prev_digest = 0, nonce = 0\<rparr>"

text \<open>
  Modelled from the spec: \<^verbatim>\<open>digest_from_hash\<close>, which the file calls and does not define.
  Sections 4.1 and 6 of the specification ask for a deterministic function of the full
  field set of the record (sender, recipient, amount, its own digest, its nonce) to a
  fixed-width integer, whichever it is, with the zero sentinel when there is no
  predecessor. \<open>field_digest\<close> is one such function, for the examples: one more than the
  sum of the lengths of the two names and the three numbers, in 32 bits.
\<close>

definition field_digest :: "transaction option \<Rightarrow> exn + int" where
  "field_digest t =
    (case t of
       None \<Rightarrow> Inr 0
     | Some r \<Rightarrow> Inr ((1 + int (length (sender r)) + int (length (recipient r)) + amount r
                      + prev_digest r + nonce r) mod 2 ^ 32))"

section \<open>Sequences of calls\<close>

text \<open>
  A client makes one call after the other on the same ledger and goes on after a call
  that raised. \<open>outcomes\<close> lists what each call returned, \<open>run\<close> is the ledger after the
  last one.
\<close>

datatype call = Mining string int | Transfer string string int

fun exec :: "ledger \<Rightarrow> call \<Rightarrow> (exn + unit) \<times> ledger" where
  "exec self (Mining miner a) = record_mining self miner a"
| "exec self (Transfer s r a) = record_transfer self s r a"

fun run :: "ledger \<Rightarrow> call list \<Rightarrow> ledger" where
  "run self [] = self"
| "run self (c # cs) = run (snd (exec self c)) cs"

fun outcomes :: "ledger \<Rightarrow> call list \<Rightarrow> (exn + unit) list" where
  "outcomes self [] = []"
| "outcomes self (c # cs) = fst (exec self c) # outcomes (snd (exec self c)) cs"

text \<open>The documented preconditions of the two methods: non-empty names, a positive amount.\<close>

fun valid_call :: "call \<Rightarrow> bool" where
  "valid_call (Mining miner a) = (miner \<noteq> '''' \<and> 0 < a)"
| "valid_call (Transfer s r a) = (s \<noteq> '''' \<and> r \<noteq> '''' \<and> 0 < a)"

text \<open>The sum of the amounts that the mining calls of a sequence issued.\<close>

fun mined :: "call list \<Rightarrow> int" where
  "mined [] = 0"
| "mined (Mining miner a # cs) = a + mined cs"
| "mined (Transfer s r a # cs) = mined cs"

text \<open>
  \<open>follow h n r\<close> is the reference reached from \<open>r\<close> by reading \<^verbatim>\<open>next\<close> exactly \<open>n\<close>
  times (\<open>None\<close> once the chain has ended).
\<close>

fun follow :: "transaction list \<Rightarrow> nat \<Rightarrow> addr option \<Rightarrow> addr option" where
  "follow h 0 r = r"
| "follow h (Suc n) r = (case r of None \<Rightarrow> None | Some a \<Rightarrow> follow h n (next_tx (h ! a)))"

text \<open>A reference is valid on a ledger when it is \<^verbatim>\<open>None\<close> or points to an object of its store.\<close>

definition valid_ref :: "ledger \<Rightarrow> addr option \<Rightarrow> bool" where
  "valid_ref s r = (case r of None \<Rightarrow> True | Some a \<Rightarrow> a < length (heap s))"

text \<open>Every value of a dictionary is at least 0.\<close>

definition nonneg_dict :: "dict \<Rightarrow> bool" where
  "nonneg_dict d = list_all (\<lambda>kv. 0 \<le> snd kv) d"

text \<open>The ledger states of the examples below.\<close>

definition david_5_mario_8 :: ledger where
  "david_5_mario_8 = run Ledger_init [Mining ''David'' 5, Mining ''Mario'' 8]"

definition david_5_david_8 :: ledger where
  "david_5_david_8 = run Ledger_init [Mining ''David'' 5, Mining ''David'' 8]"

definition scenario_2 :: ledger where
  "scenario_2 = run Ledger_init
     [Mining ''David'' 50, Mining ''Mario'' 20, Transfer ''David'' ''Mario'' 10]"

definition eve_pays_david :: ledger where
  "eve_pays_david =
    \<lparr>heap = [\<lparr>sender = ''Eve'', recipient = ''David'', amount = 5,
              next_tx = None, prev_digest = 0, nonce = 0\<rparr>],
     first = Some 0, last_tx = Some 0, balance = [(''David'', 5)]\<rparr>"

section \<open>Facts about dictionaries\<close>

lemma dict_get_None: "map_of d k = None \<Longrightarrow> dict_get d k = Inl KeyError"
  by (simp add: dict_get_def)

lemma dict_get_Some: "map_of d k = Some v \<Longrightarrow> dict_get d k = Inr v"
  by (simp add: dict_get_def)

lemma nonneg_dict_set: "nonneg_dict d \<Longrightarrow> 0 \<le> v \<Longrightarrow> nonneg_dict (dict_set d k v)"
  unfolding nonneg_dict_def dict_set_def by (induction d) auto

lemma nonneg_dict_get:
  assumes nn: "nonneg_dict d" and g: "dict_get d k = Inr v"
  shows "0 \<le> v"
proof -
  from g have "map_of d k = Some v"
    by (simp add: dict_get_def split: option.splits)
  then have "(k, v) \<in> set d" by (rule map_of_SomeD)
  with nn show "0 \<le> v" by (auto simp: nonneg_dict_def list_all_iff)
qed

lemmas model_defs =
  record_mining_def record_transfer_def transfer_body_def new_Transaction_def
  Ledger_init_def dict_get_def dict_set_def dict_in_def

section \<open>What a call does to the object store and to the two references\<close>

text \<open>
  Lines 113 to 129 never touch an existing object and never write \<^verbatim>\<open>self.first\<close>; they
  leave \<^verbatim>\<open>self.last\<close> alone or point it to the new object.
\<close>

lemma transfer_body_heap: "heap (snd (transfer_body n s1 s r a)) = heap s1"
  by (simp add: transfer_body_def Let_def split: sum.split)

lemma transfer_body_first: "first (snd (transfer_body n s1 s r a)) = first s1"
  by (simp add: transfer_body_def Let_def split: sum.split)

lemma transfer_body_last:
  "last_tx (snd (transfer_body n s1 s r a)) = last_tx s1
   \<or> last_tx (snd (transfer_body n s1 s r a)) = Some n"
  by (simp add: transfer_body_def Let_def split: sum.split)

text \<open>Each call creates exactly one object, whose \<^verbatim>\<open>next\<close> is \<^verbatim>\<open>None\<close>.\<close>

lemma record_transfer_heap:
  "heap (snd (record_transfer self s r a)) =
     heap self @ [\<lparr>sender = s, recipient = r, amount = a,
                   next_tx = None, prev_digest = 0, nonce = 0\<rparr>]"
  by (simp add: record_transfer_def new_Transaction_def transfer_body_heap)

lemma record_mining_heap:
  "heap (snd (record_mining self miner a)) =
     heap self @ [\<lparr>sender = [], recipient = miner, amount = a,
                   next_tx = None, prev_digest = 0, nonce = 0\<rparr>]"
  by (simp add: record_mining_def new_Transaction_def)

lemma exec_next_None:
  assumes "list_all (\<lambda>t. next_tx t = None) (heap self)"
  shows "list_all (\<lambda>t. next_tx t = None) (heap (snd (exec self c)))"
  using assms by (cases c) (simp_all add: record_mining_heap record_transfer_heap)

lemma run_next_None:
  "list_all (\<lambda>t. next_tx t = None) (heap self) \<Longrightarrow>
   list_all (\<lambda>t. next_tx t = None) (heap (run self cs))"
proof (induction cs arbitrary: self)
  case Nil
  then show ?case by simp
next
  case (Cons c cs)
  from Cons.prems have "list_all (\<lambda>t. next_tx t = None) (heap (snd (exec self c)))"
    by (rule exec_next_None)
  then have "list_all (\<lambda>t. next_tx t = None) (heap (run (snd (exec self c)) cs))"
    by (rule Cons.IH)
  then show ?case by simp
qed

text \<open>
  The references that the methods store are references to existing objects, so the
  reads \<open>h ! a\<close> of the model are reads of objects on every ledger that calls built.
\<close>

lemma valid_ref_grow:
  "valid_ref self r \<Longrightarrow> heap s' = heap self @ ts \<Longrightarrow> valid_ref s' r"
  by (cases r) (simp_all add: valid_ref_def)

lemma record_mining_refs:
  assumes "valid_ref self (first self)" "valid_ref self (last_tx self)"
  shows "valid_ref (snd (record_mining self miner a)) (first (snd (record_mining self miner a)))
       \<and> valid_ref (snd (record_mining self miner a)) (last_tx (snd (record_mining self miner a)))"
  using assms
  by (cases "first self"; cases "last_tx self")
     (simp_all add: record_mining_def new_Transaction_def valid_ref_def)

lemma record_transfer_refs:
  assumes "valid_ref self (first self)" "valid_ref self (last_tx self)"
  shows "valid_ref (snd (record_transfer self s r a)) (first (snd (record_transfer self s r a)))
       \<and> valid_ref (snd (record_transfer self s r a)) (last_tx (snd (record_transfer self s r a)))"
proof -
  let ?s' = "snd (record_transfer self s r a)"
  have h: "heap ?s' = heap self @ [\<lparr>sender = s, recipient = r, amount = a,
                   next_tx = None, prev_digest = 0, nonce = 0\<rparr>]"
    by (rule record_transfer_heap)
  have f: "first ?s' = first self"
    by (simp add: record_transfer_def new_Transaction_def transfer_body_first)
  have l: "last_tx ?s' = last_tx self \<or> last_tx ?s' = Some (length (heap self))"
    using transfer_body_last [of "length (heap self)"
            "self\<lparr>heap := heap self @ [\<lparr>sender = s, recipient = r, amount = a,
                   next_tx = None, prev_digest = 0, nonce = 0\<rparr>]\<rparr>" s r a]
    by (simp add: record_transfer_def new_Transaction_def)
  from assms(1) h have "valid_ref ?s' (first self)" by (rule valid_ref_grow)
  moreover from assms(2) h have "valid_ref ?s' (last_tx self)" by (rule valid_ref_grow)
  moreover have "valid_ref ?s' (Some (length (heap self)))" using h by (simp add: valid_ref_def)
  ultimately show ?thesis using f l by auto
qed

lemma run_refs:
  "valid_ref self (first self) \<and> valid_ref self (last_tx self) \<Longrightarrow>
   valid_ref (run self cs) (first (run self cs)) \<and> valid_ref (run self cs) (last_tx (run self cs))"
proof (induction cs arbitrary: self)
  case Nil
  then show ?case by simp
next
  case (Cons c cs)
  have "valid_ref (snd (exec self c)) (first (snd (exec self c)))
      \<and> valid_ref (snd (exec self c)) (last_tx (snd (exec self c)))"
    using Cons.prems by (cases c) (simp_all add: record_mining_refs record_transfer_refs)
  then show ?case using Cons.IH by simp
qed

lemma built_ledger_refs:
  "valid_ref (run Ledger_init cs) (first (run Ledger_init cs))
   \<and> valid_ref (run Ledger_init cs) (last_tx (run Ledger_init cs))"
  by (rule run_refs) (simp add: Ledger_init_def valid_ref_def)

text \<open>
  Whatever the calls, on the ledger they built one step from \<^verbatim>\<open>first\<close> finds \<^verbatim>\<open>None\<close>:
  the chain that starts at \<^verbatim>\<open>first\<close> never has more than one record.
\<close>

lemma built_ledger_first_has_no_next:
  "follow (heap (run Ledger_init cs)) 1 (first (run Ledger_init cs)) = None"
proof (cases "first (run Ledger_init cs)")
  case None
  then show ?thesis by simp
next
  case (Some f)
  with built_ledger_refs [of cs] have "f < length (heap (run Ledger_init cs))"
    by (simp add: valid_ref_def)
  moreover have "list_all (\<lambda>t. next_tx t = None) (heap (run Ledger_init cs))"
    by (rule run_next_None) (simp add: Ledger_init_def)
  ultimately have "next_tx (heap (run Ledger_init cs) ! f) = None"
    by (simp add: list_all_length)
  with Some show ?thesis by simp
qed

section \<open>Rejected transfers\<close>

text \<open>
  C4. A \<^verbatim>\<open>record_transfer\<close> call whose sender has no entry in \<^verbatim>\<open>_balance\<close>, or whose
  sender's balance is strictly less than the amount, raises, and leaves \<^verbatim>\<open>first\<close>,
  \<^verbatim>\<open>last\<close> and \<^verbatim>\<open>_balance\<close> exactly as they were; every transaction object that existed
  before the call is unchanged as well (nothing is appended, no balance is touched).
\<close>

theorem record_transfer_rejected_no_mutation:
  assumes "map_of (balance self) sender' = None
           \<or> (\<exists>b. map_of (balance self) sender' = Some b \<and> b < amount')"
  shows "(\<exists>e. fst (record_transfer self sender' recipient' amount') = Inl e)
         \<and> first (snd (record_transfer self sender' recipient' amount')) = first self
         \<and> last_tx (snd (record_transfer self sender' recipient' amount')) = last_tx self
         \<and> balance (snd (record_transfer self sender' recipient' amount')) = balance self
         \<and> take (length (heap self)) (heap (snd (record_transfer self sender' recipient' amount')))
             = heap self"
  using assms
  by (auto simp: record_transfer_def transfer_body_def new_Transaction_def
        dict_get_None dict_get_Some)

text \<open>
  Scenario 6 of the specification: after \<^verbatim>\<open>record_mining('David', 5)\<close>, the call
  \<^verbatim>\<open>record_transfer('David', 'Mario', 10)\<close> is rejected and the ledger is as before.
\<close>

theorem record_transfer_rejected_no_mutation_witness:
  "(\<exists>b. map_of (balance (run Ledger_init [Mining ''David'' 5])) ''David'' = Some b \<and> b < 10)
   \<and> fst (record_transfer (run Ledger_init [Mining ''David'' 5]) ''David'' ''Mario'' 10)
       = Inl ValueError
   \<and> first (snd (record_transfer (run Ledger_init [Mining ''David'' 5]) ''David'' ''Mario'' 10))
       = Some 0
   \<and> last_tx (snd (record_transfer (run Ledger_init [Mining ''David'' 5]) ''David'' ''Mario'' 10))
       = None
   \<and> balance (snd (record_transfer (run Ledger_init [Mining ''David'' 5]) ''David'' ''Mario'' 10))
       = [(''David'', 5)]"
  using record_transfer_rejected_no_mutation
          [of "run Ledger_init [Mining ''David'' 5]" "''David''" 10 "''Mario''"]
  by (simp add: model_defs)

section \<open>Balances stay non-negative\<close>

lemma record_mining_nonneg:
  "nonneg_dict (balance self) \<Longrightarrow> 0 < a \<Longrightarrow>
   nonneg_dict (balance (snd (record_mining self miner a)))"
  by (simp add: record_mining_def new_Transaction_def nonneg_dict_set)

text \<open>
  The transfer passes the comparison of line 113 only with \<open>a \<le> b\<close>, so the sender keeps
  \<open>b - a \<ge> 0\<close>; the recipient's entry is read after that assignment (which matters when
  sender and recipient are the same name) and grows.
\<close>

lemma transfer_body_nonneg:
  assumes nn: "nonneg_dict (balance s1)" and pos: "0 < a"
  shows "nonneg_dict (balance (snd (transfer_body n s1 s r a)))"
proof (cases "dict_get (balance s1) s")
  case (Inl e)
  with nn show ?thesis by (simp add: transfer_body_def)
next
  case sender_entry: (Inr b)
  show ?thesis
  proof (cases "b < a \<or> \<not> dict_in s (balance s1)")
    case True
    with sender_entry nn show ?thesis by (auto simp: transfer_body_def)
  next
    case accepted: False
    then have ge: "0 \<le> b - a" by simp
    let ?d3 = "dict_set (balance s1) s (b - a)"
    have nn3: "nonneg_dict ?d3" using nn ge by (rule nonneg_dict_set)
    show ?thesis
    proof (cases "dict_in r ?d3")
      case False
      with accepted sender_entry nn3 pos show ?thesis
        by (simp add: transfer_body_def nonneg_dict_set)
    next
      case True
      show ?thesis
      proof (cases "dict_get ?d3 r")
        case (Inl e)
        with True accepted sender_entry nn3 show ?thesis
          by (simp add: transfer_body_def)
      next
        case (Inr x)
        with nn3 have "0 \<le> x" by (rule nonneg_dict_get)
        with pos have "0 \<le> x + a" by simp
        with nn3 have "nonneg_dict (dict_set ?d3 r (x + a))" by (rule nonneg_dict_set)
        with True accepted sender_entry Inr show ?thesis
          by (simp add: transfer_body_def)
      qed
    qed
  qed
qed

lemma record_transfer_nonneg:
  "nonneg_dict (balance self) \<Longrightarrow> 0 < a \<Longrightarrow>
   nonneg_dict (balance (snd (record_transfer self s r a)))"
  by (simp add: record_transfer_def new_Transaction_def transfer_body_nonneg)

lemma exec_nonneg:
  "valid_call c \<Longrightarrow> nonneg_dict (balance self) \<Longrightarrow> nonneg_dict (balance (snd (exec self c)))"
  by (cases c) (simp_all add: record_mining_nonneg record_transfer_nonneg)

lemma run_nonneg:
  "list_all valid_call cs \<Longrightarrow> nonneg_dict (balance self) \<Longrightarrow>
   nonneg_dict (balance (run self cs))"
  by (induction cs arbitrary: self) (simp_all add: exec_nonneg)

lemma list_all_take: "list_all P xs \<Longrightarrow> list_all P (take n xs)"
  by (auto simp: list_all_iff dest: in_set_takeD)

text \<open>
  C8. For every sequence of \<^verbatim>\<open>record_mining\<close> and \<^verbatim>\<open>record_transfer\<close> calls with
  non-empty names and positive amounts on a new ledger (accepted or rejected), after each
  of the calls (after the first \<open>n\<close> of them, for every \<open>n\<close>) every value of \<^verbatim>\<open>_balance\<close> is
  at least 0.
\<close>

theorem balances_never_negative:
  assumes "list_all valid_call cs"
  shows "nonneg_dict (balance (run Ledger_init (take n cs)))"
proof -
  from assms have "list_all valid_call (take n cs)" by (rule list_all_take)
  moreover have "nonneg_dict (balance Ledger_init)"
    by (simp add: Ledger_init_def nonneg_dict_def)
  ultimately show ?thesis by (rule run_nonneg)
qed

theorem balances_never_negative_witness:
  "list_all valid_call
     [Mining ''David'' 5, Transfer ''David'' ''Mario'' 2, Transfer ''Mario'' ''David'' 10]
   \<and> balance (run Ledger_init (take 3
       [Mining ''David'' 5, Transfer ''David'' ''Mario'' 2, Transfer ''Mario'' ''David'' 10]))
     = [(''David'', 3), (''Mario'', 2)]
   \<and> nonneg_dict (balance (run Ledger_init (take 3
       [Mining ''David'' 5, Transfer ''David'' ''Mario'' 2, Transfer ''Mario'' ''David'' 10])))"
proof -
  have h: "list_all valid_call
     [Mining ''David'' 5, Transfer ''David'' ''Mario'' 2, Transfer ''Mario'' ''David'' 10]"
    by simp
  have b: "balance (run Ledger_init (take 3
       [Mining ''David'' 5, Transfer ''David'' ''Mario'' 2, Transfer ''Mario'' ''David'' 10]))
     = [(''David'', 3), (''Mario'', 2)]"
    by (simp add: model_defs)
  from h b balances_never_negative [OF h, of 3] show ?thesis by simp
qed

section \<open>\<^verbatim>\<open>verify_balance\<close> is read-only\<close>

text \<open>
  None of the three loops writes to \<^verbatim>\<open>self\<close>. The first one and the walk assign to
  \<^verbatim>\<open>balance_so_far\<close> and \<^verbatim>\<open>curr_trans\<close>; the comparison assigns to nothing. For the walk
  this is an induction over its iterations: whatever frame a run of the loop ends in,
  its \<open>self_obj\<close> is the one the run started with.
\<close>

lemma zero_entries_self: "self_obj (fold zero_entry names fr) = self_obj fr"
  by (induction names arbitrary: fr) (simp_all add: zero_entry_def)

lemma compare_loop_frame: "snd (compare_loop names fr) = fr"
  by (induction names) (simp_all split: sum.split)

lemma verify_loop_self:
  "verify_loop fr = Some y \<Longrightarrow> self_obj (snd y) = self_obj fr"
proof (induct fr y rule: verify_loop.raw_induct [rotated 1, consumes 1])
  case (1 loop fr y)
  show ?case
  proof (cases "curr_trans fr")
    case None
    with 1(2) show ?thesis by auto
  next
    case (Some a)
    let ?t = "heap (self_obj fr) ! a"
    show ?thesis
    proof (cases "dict_get (balance_so_far fr) (recipient ?t)")
      case (Inl e)
      with Some 1(2) show ?thesis by (auto simp: Let_def)
    next
      case credited: (Inr r)
      let ?fr1 = "fr\<lparr>balance_so_far :=
                      dict_set (balance_so_far fr) (recipient ?t) (r + amount ?t)\<rparr>"
      show ?thesis
      proof (cases "sender ?t = ''''")
        case True
        with Some credited 1(2) have "loop (?fr1\<lparr>curr_trans := next_tx ?t\<rparr>) = Some y"
          by (simp add: Let_def)
        then have "self_obj (snd y) = self_obj (?fr1\<lparr>curr_trans := next_tx ?t\<rparr>)"
          by (rule 1(1))
        then show ?thesis by simp
      next
        case transfer: False
        show ?thesis
        proof (cases "dict_get (balance (self_obj fr)) (sender ?t)")
          case (Inl e)
          with Some credited transfer 1(2) show ?thesis by (auto simp: Let_def)
        next
          case cached: (Inr b)
          show ?thesis
          proof (cases "b < amount ?t \<or> b = 0")
            case True
            with Some credited transfer cached 1(2) show ?thesis by (auto simp: Let_def)
          next
            case enough: False
            show ?thesis
            proof (cases "dict_get (balance_so_far ?fr1) (sender ?t)")
              case (Inl e)
              with Some credited transfer cached enough 1(2) show ?thesis
                by (auto simp: Let_def)
            next
              case (Inr x)
              let ?fr2 = "?fr1\<lparr>balance_so_far := dict_set (balance_so_far ?fr1) (sender ?t)
                                   (x - amount ?t), curr_trans := next_tx ?t\<rparr>"
              from Some credited transfer cached enough Inr 1(2)
              have "loop ?fr2 = Some y" by (simp add: Let_def)
              then have "self_obj (snd y) = self_obj ?fr2" by (rule 1(1))
              then show ?thesis by simp
            qed
          qed
        qed
      qed
    qed
  qed
qed

text \<open>
  C10. Whenever \<^verbatim>\<open>verify_balance()\<close> returns (a boolean, or by raising), the ledger it
  leaves is the ledger it was called on: \<^verbatim>\<open>first\<close>, \<^verbatim>\<open>last\<close>, \<^verbatim>\<open>_balance\<close> and every
  field of every transaction object are unchanged.
\<close>

theorem verify_balance_read_only:
  assumes "verify_balance self = Some (r, self')"
  shows "first self' = first self \<and> last_tx self' = last_tx self
         \<and> balance self' = balance self \<and> heap self' = heap self"
proof -
  let ?fr0 = "\<lparr>self_obj = self, balance_so_far = [], curr_trans = first self\<rparr>"
  let ?fr1 = "fold zero_entry (map fst (balance self)) ?fr0"
  have s1: "self_obj ?fr1 = self" by (simp add: zero_entries_self)
  from assms obtain w fr2 where loop: "verify_loop ?fr1 = Some (w, fr2)"
    by (auto simp: verify_balance_def Let_def split: option.splits)
  then have s2: "self_obj fr2 = self"
    using s1 verify_loop_self [of ?fr1 "(w, fr2)"] by simp
  have "self' = self"
  proof (cases w)
    case (Some res)
    with assms loop s2 show ?thesis by (simp add: verify_balance_def Let_def)
  next
    case None
    with assms loop
    have "self' = self_obj (snd (compare_loop (map fst (balance_so_far fr2)) fr2))"
      by (simp add: verify_balance_def Let_def split: prod.splits)
    with s2 show ?thesis by (simp add: compare_loop_frame)
  qed
  then show ?thesis by simp
qed

text \<open>
  Scenario 2 of the specification: two minings and a transfer. The walk writes to
  \<^verbatim>\<open>balance_so_far\<close>, the method returns, and the ledger is as it was.
\<close>

theorem verify_balance_read_only_witness:
  "verify_balance scenario_2 = Some (Inr False, scenario_2)
   \<and> first scenario_2 = Some 0 \<and> last_tx scenario_2 = Some 2
   \<and> balance scenario_2 = [(''David'', 40), (''Mario'', 30)]"
proof -
  have h: "verify_balance scenario_2 = Some (Inr False, scenario_2)"
    by (simp add: scenario_2_def verify_balance_def verify_loop.simps zero_entry_def
          Let_def model_defs)
  have v: "first scenario_2 = Some 0 \<and> last_tx scenario_2 = Some 2
     \<and> balance scenario_2 = [(''David'', 40), (''Mario'', 30)]"
    by (simp add: scenario_2_def model_defs)
  from h v verify_balance_read_only [OF h] show ?thesis by simp
qed

section \<open>What the methods do on the examples of the docstrings\<close>

text \<open>
  C3. \<^verbatim>\<open>record_mining\<close> assigns \<^verbatim>\<open>self._balance[miner] = amount\<close>: after
  \<^verbatim>\<open>record_mining('David', 5)\<close> and \<^verbatim>\<open>record_mining('David', 8)\<close> on a new ledger, both
  calls having returned normally, David's balance is 8 and not 13.
\<close>

theorem mining_twice_keeps_last_amount:
  "outcomes Ledger_init [Mining ''David'' 5, Mining ''David'' 8] = [Inr (), Inr ()]
   \<and> balance (run Ledger_init [Mining ''David'' 5]) = [(''David'', 5)]
   \<and> balance david_5_david_8 = [(''David'', 8)]
   \<and> dict_get (balance david_5_david_8) ''David'' = Inr 8"
  by (simp add: david_5_david_8_def model_defs)

text \<open>
  C5. On a new ledger \<^verbatim>\<open>record_transfer('David', 'Mario', 5)\<close> (scenario 3 of the
  specification: valid names, a positive amount, a sender without an entry in
  \<^verbatim>\<open>_balance\<close>) raises \<^verbatim>\<open>KeyError\<close>, from the read in line 113, and not \<^verbatim>\<open>ValueError\<close>.
\<close>

theorem transfer_unknown_sender_raises_KeyError:
  "valid_call (Transfer ''David'' ''Mario'' 5)
   \<and> map_of (balance Ledger_init) ''David'' = None
   \<and> fst (record_transfer Ledger_init ''David'' ''Mario'' 5) = Inl KeyError"
  by (simp add: model_defs)

text \<open>
  C1. After \<^verbatim>\<open>record_mining('David', 5)\<close> on a new ledger \<^verbatim>\<open>first\<close> is the new record and
  \<^verbatim>\<open>last\<close> is still \<^verbatim>\<open>None\<close>. After \<^verbatim>\<open>record_mining('Mario', 8)\<close> as well, \<^verbatim>\<open>first\<close> is
  David's record, \<^verbatim>\<open>last\<close> is Mario's, and the \<^verbatim>\<open>next\<close> of David's record is \<^verbatim>\<open>None\<close>: one
  step from \<^verbatim>\<open>first\<close> does not reach \<^verbatim>\<open>last\<close>, and the chain that starts at \<^verbatim>\<open>first\<close> has
  one record after two successful calls.
\<close>

theorem two_minings_chain_not_linked:
  "outcomes Ledger_init [Mining ''David'' 5, Mining ''Mario'' 8] = [Inr (), Inr ()]
   \<and> first (run Ledger_init [Mining ''David'' 5]) = Some 0
   \<and> last_tx (run Ledger_init [Mining ''David'' 5]) = None
   \<and> first david_5_mario_8 = Some 0
   \<and> last_tx david_5_mario_8 = Some 1
   \<and> next_tx (heap david_5_mario_8 ! 0) = None
   \<and> follow (heap david_5_mario_8) 1 (first david_5_mario_8) = None
   \<and> follow (heap david_5_mario_8) 1 (first david_5_mario_8) \<noteq> last_tx david_5_mario_8"
  by (simp add: david_5_mario_8_def model_defs)

text \<open>
  C2. On the ledger of the docstring of \<^verbatim>\<open>record_mining\<close> (David mines 5, Mario mines 8,
  both calls successful, nothing else touched) \<^verbatim>\<open>verify_balance()\<close> returns \<^verbatim>\<open>False\<close>.
\<close>

theorem verify_balance_False_after_two_minings:
  "outcomes Ledger_init [Mining ''David'' 5, Mining ''Mario'' 8] = [Inr (), Inr ()]
   \<and> verify_balance david_5_mario_8 = Some (Inr False, david_5_mario_8)"
  by (simp add: david_5_mario_8_def verify_balance_def verify_loop.simps zero_entry_def
        Let_def model_defs)

text \<open>
  C6. On a ledger whose only record is a transfer from Eve to David, with an entry for
  David only in \<^verbatim>\<open>_balance\<close>, \<^verbatim>\<open>verify_balance()\<close> raises \<^verbatim>\<open>KeyError\<close> (the read of
  \<^verbatim>\<open>self._balance[sender]\<close> in line 207) instead of returning a boolean.
\<close>

theorem verify_balance_raises_KeyError:
  "verify_balance eve_pays_david = Some (Inl KeyError, eve_pays_david)"
  by (simp add: eve_pays_david_def verify_balance_def verify_loop.simps zero_entry_def
        Let_def model_defs)

text \<open>
  C7. After \<^verbatim>\<open>record_mining('David', 5)\<close> and \<^verbatim>\<open>record_mining('David', 8)\<close> the mining
  calls have issued 13, and the values of \<^verbatim>\<open>_balance\<close> sum to 8.
\<close>

theorem balances_sum_differs_from_mined:
  "mined [Mining ''David'' 5, Mining ''David'' 8] = 13
   \<and> sum_list (map snd (balance david_5_david_8)) = 8"
  by (simp add: david_5_david_8_def model_defs)

section \<open>The stored digests\<close>

text \<open>
  The two methods call the digest function before anything else. When that call raises
  (as a call of a name that is not defined does), the method raises and records nothing.
\<close>

lemma record_mining_digest_raises:
  "d (map_option (\<lambda>a. heap self ! a) (last_tx self)) = Inl e \<Longrightarrow>
   record_mining_digest d self miner a = (Inl e, self)"
  by (simp add: record_mining_digest_def)

lemma record_transfer_digest_raises:
  "d (map_option (\<lambda>a. heap self ! a) (last_tx self)) = Inl e \<Longrightarrow>
   record_transfer_digest d self s r a = (Inl e, self)"
  by (simp add: record_transfer_digest_def)

text \<open>
  C9. Take a \<^verbatim>\<open>digest_from_hash\<close>, \<open>d\<close>, that returns \<open>z\<close> on \<^verbatim>\<open>None\<close> and something else
  on David's record. After \<^verbatim>\<open>record_mining_digest('David', 5)\<close> on a new ledger, David's
  record is \<^verbatim>\<open>first\<close> and the only record, and \<^verbatim>\<open>last\<close> is still \<^verbatim>\<open>None\<close>. So
  \<^verbatim>\<open>record_mining_digest('Mario', 8)\<close> stores in Mario's record \<open>z\<close>, the digest of
  \<^verbatim>\<open>None\<close>, which is not the digest of David's record, the record before it; and David's
  \<^verbatim>\<open>next\<close> stays \<^verbatim>\<open>None\<close>. Both calls return normally.
\<close>

theorem second_digest_record_not_linked:
  assumes none: "d None = Inr z"
      and differs: "d (Some david_record) \<noteq> Inr z"
  shows "let c1 = record_mining_digest d Ledger_init ''David'' 5;
             c2 = record_mining_digest d (snd c1) ''Mario'' 8
         in fst c1 = Inr () \<and> fst c2 = Inr ()
          \<and> first (snd c1) = Some 0 \<and> last_tx (snd c1) = None
          \<and> heap (snd c1) = [david_record]
          \<and> first (snd c2) = Some 0 \<and> last_tx (snd c2) = Some 1
          \<and> heap (snd c2) ! 0 = david_record
          \<and> recipient (heap (snd c2) ! 1) = ''Mario''
          \<and> prev_digest (heap (snd c2) ! 1) = z
          \<and> d (Some (heap (snd c2) ! 0)) \<noteq> Inr (prev_digest (heap (snd c2) ! 1))
          \<and> next_tx (heap (snd c2) ! 0) = None"
proof -
  have c1: "record_mining_digest d Ledger_init ''David'' 5 =
      (Inr (), \<lparr>heap = [david_record], first = Some 0, last_tx = None,
                 balance = [(''David'', 5)]\<rparr>)"
    using none by (simp add: record_mining_digest_def david_record_def model_defs)
  have c2: "record_mining_digest d \<lparr>heap = [david_record], first = Some 0, last_tx = None,
                 balance = [(''David'', 5)]\<rparr> ''Mario'' 8 =
      (Inr (), \<lparr>heap = [david_record,
                   \<lparr>sender = '''', recipient = ''Mario'', amount = 8,
                     next_tx = None, prev_digest = z, nonce = 0\<rparr>],
                 first = Some 0, last_tx = Some 1,
                 balance = [(''David'', 5), (''Mario'', 8)]\<rparr>)"
    using none by (simp add: record_mining_digest_def model_defs)
  show ?thesis using differs by (simp add: c1 c2 Let_def) (simp add: david_record_def)
qed

text \<open>
  With \<open>field_digest\<close>: the digest of \<^verbatim>\<open>None\<close> is 0, the digest of David's record is 11,
  and Mario's record stores 0.
\<close>

theorem second_digest_record_not_linked_witness:
  "field_digest None = Inr 0
   \<and> field_digest (Some david_record) = Inr 11
   \<and> (let c1 = record_mining_digest field_digest Ledger_init ''David'' 5;
           c2 = record_mining_digest field_digest (snd c1) ''Mario'' 8
       in fst c1 = Inr () \<and> fst c2 = Inr ()
        \<and> heap (snd c2) ! 0 = david_record
        \<and> prev_digest (heap (snd c2) ! 1) = 0
        \<and> field_digest (Some (heap (snd c2) ! 0)) = Inr 11)"
proof -
  have none: "field_digest None = Inr 0" by (simp add: field_digest_def)
  have david: "field_digest (Some david_record) = Inr 11"
    by (simp add: field_digest_def david_record_def)
  then have differs: "field_digest (Some david_record) \<noteq> Inr 0" by simp
  from second_digest_record_not_linked [OF none differs] none david
  show ?thesis by (simp add: Let_def)
qed

end
